theory Spec2Isabelle
  imports Complex_Main "HOL-Library.AList"
begin

section \<open>Python values used by \<^verbatim>\<open>hk_mup/mup.py\<close>\<close>

text \<open>
  Exceptions are values. Every \<^verbatim>\<open>raise\<close> of the module and every implicit
  failure of a Python operation it performs (tuple unpacking, subscripting, indexing,
  true division) is a branch returning \<open>Inl\<close>.
  \<^item> \<open>ValueError msg\<close>: a \<^verbatim>\<open>ValueError\<close> the module raises itself, with its message;
  \<^item> \<open>UnpackError n\<close>: the \<^verbatim>\<open>ValueError\<close> of unpacking \<open>n \<noteq> 2\<close> values into two
    targets (the interpreter's message depends on its version);
  \<^item> \<open>KeyError k\<close>: subscripting a dict with a missing key;
  \<^item> \<open>TypeError\<close>: subscripting \<^verbatim>\<open>None\<close>;
  \<^item> \<open>IndexError\<close>: list index out of range;
  \<^item> \<open>ZeroDivisionError\<close>: true division by zero;
  \<^item> \<open>TreeStructureError\<close>: the \<^verbatim>\<open>ValueError\<close> that \<^verbatim>\<open>jax.tree_map\<close> raises on
    trees of different structure.
\<close>

datatype error =
    ValueError string
  | UnpackError nat
  | KeyError string
  | TypeError
  | IndexError
  | ZeroDivisionError
  | TreeStructureError

text \<open>
  A \<^verbatim>\<open>dict\<close> is an association list with distinct keys in insertion order.
  \<open>d[k] = v\<close> is \<^const>\<open>AList.update\<close>: it replaces the value in place when the key is
  present and appends the pair otherwise, as Python does. \<open>d.get(k)\<close> is \<^const>\<open>map_of\<close>,
  \<open>len(d)\<close> is \<^const>\<open>length\<close>.
\<close>

type_synonym ('k, 'v) dict = "('k \<times> 'v) list"

text \<open>
  Python floats are idealised as exact reals: \<open>b / a\<close> on two ints is the exact
  quotient, and a zero divisor raises \<^verbatim>\<open>ZeroDivisionError\<close>. Rounding is outside the
  model.
\<close>

definition truediv :: "real \<Rightarrow> real \<Rightarrow> error + real" where
  "truediv x y = (if y = 0 then Inl ZeroDivisionError else Inr (x / y))"

text \<open>
  \<^verbatim>\<open>s.rsplit('/')\<close> with no \<^verbatim>\<open>maxsplit\<close>: the string is cut at every
  occurrence of the separator, so the result has one more element than the string has
  separators; the empty string gives one empty piece.
\<close>

fun rsplit :: "char \<Rightarrow> string \<Rightarrow> string list" where
  "rsplit sep [] = [[]]"
| "rsplit sep (c # cs) =
     (if c = sep then [] # rsplit sep cs
      else (c # hd (rsplit sep cs)) # tl (rsplit sep cs))"

text \<open>\<^verbatim>\<open>parent, name = pieces\<close>: unpacking into two targets.\<close>

definition unpack2 :: "string list \<Rightarrow> error + string \<times> string" where
  "unpack2 pieces =
     (case pieces of [a, b] \<Rightarrow> Inr (a, b) | _ \<Rightarrow> Inl (UnpackError (length pieces)))"

text \<open>\<^verbatim>\<open>xs[i]\<close> for a non-negative index.\<close>

definition getitem :: "'a list \<Rightarrow> nat \<Rightarrow> error + 'a" where
  "getitem xs i = (if i < length xs then Inr (xs ! i) else Inl IndexError)"

text \<open>The decimal text of a count, as an f-string prints it.\<close>

fun str_nat :: "nat \<Rightarrow> string" where
  "str_nat n =
     (if n < 10 then [''0123456789'' ! n]
      else str_nat (n div 10) @ [''0123456789'' ! (n mod 10)])"

declare str_nat.simps [simp del]

section \<open>The session object: class \<^verbatim>\<open>Mup\<close>\<close>

type_synonym shape = "int list"

text \<open>
  \<open>base_shapes\<close> is \<open>None\<close> outside an initialisation context. \<open>adam_lrs\<close> and
  \<open>sgd_lrs\<close> are \<^verbatim>\<open>defaultdict(dict)\<close>: scope to (parameter name to multiplier).
\<close>

record mup =
  base_shapes :: "(string, (string, shape) dict) dict option"
  readout_mults :: "(string, real) dict"
  adam_lrs :: "(string, (string, real) dict) dict"
  sgd_lrs :: "(string, (string, real) dict) dict"

definition mup_init :: mup where
  "mup_init = \<lparr>base_shapes = None, readout_mults = [], adam_lrs = [], sgd_lrs = []\<rparr>"

text \<open>
  \<^verbatim>\<open>d[parent][name] = v\<close> on a \<^verbatim>\<open>defaultdict(dict)\<close>: a missing \<open>parent\<close> is first
  bound to a fresh empty dict, then \<open>name\<close> is set in the inner dict.
\<close>

definition setitem2 ::
  "('a, ('b, 'v) dict) dict \<Rightarrow> 'a \<Rightarrow> 'b \<Rightarrow> 'v \<Rightarrow> ('a, ('b, 'v) dict) dict" where
  "setitem2 d parent name v =
     AList.update parent
       (AList.update name v (case map_of d parent of None \<Rightarrow> [] | Some inner \<Rightarrow> inner)) d"

text \<open>
  \<^verbatim>\<open>Mup.set_lrs\<close>. The only failure is the unpacking, which happens before either
  registry is written; \<open>Inl\<close> therefore means that the session is as it was.
\<close>

definition set_lrs :: "mup \<Rightarrow> string \<Rightarrow> real \<Rightarrow> real \<Rightarrow> error + mup" where
  "set_lrs self full_name sgd_lr adam_lr =
     (case unpack2 (rsplit CHR ''/'' full_name) of
        Inl e \<Rightarrow> Inl e
      | Inr (parent, name) \<Rightarrow>
          Inr (self\<lparr>sgd_lrs := setitem2 (sgd_lrs self) parent name sgd_lr,
                    adam_lrs := setitem2 (adam_lrs self) parent name adam_lr\<rparr>))"

section \<open>Shape-ratio analysis: \<^verbatim>\<open>_get_inf_ratios\<close>\<close>

text \<open>\<^verbatim>\<open>sum(a != b for a, b in zip(base, shape))\<close>\<close>

definition count_inf :: "shape \<Rightarrow> shape \<Rightarrow> nat" where
  "count_inf base shape = length (filter (\<lambda>(a, b). a \<noteq> b) (zip base shape))"

text \<open>
  \<^verbatim>\<open>[b / a for a, b in zip(base, shape) if a != b]\<close>, evaluated left to right; a base
  dimension of zero that differs from the actual one makes the division raise.
\<close>

fun inf_ratios_of :: "(int \<times> int) list \<Rightarrow> error + real list" where
  "inf_ratios_of [] = Inr []"
| "inf_ratios_of ((a, b) # ps) =
     (if a \<noteq> b then
        (case truediv (real_of_int b) (real_of_int a) of
           Inl e \<Rightarrow> Inl e
         | Inr r \<Rightarrow> (case inf_ratios_of ps of Inl e \<Rightarrow> Inl e | Inr rs \<Rightarrow> Inr (r # rs)))
      else inf_ratios_of ps)"

definition too_many_msg :: "nat \<Rightarrow> string \<Rightarrow> string" where
  "too_many_msg n_inf full_name =
     ''At most two infinite dimensions supported. Found '' @ str_nat n_inf @ '' in '' @ full_name"

text \<open>\<^verbatim>\<open>mup_ctx.base_shapes[parent][name]\<close>\<close>

definition base_shape_of :: "mup \<Rightarrow> string \<Rightarrow> string \<Rightarrow> error + shape" where
  "base_shape_of mup_ctx parent name =
     (case base_shapes mup_ctx of
        None \<Rightarrow> Inl TypeError
      | Some bs \<Rightarrow>
          (case map_of bs parent of
             None \<Rightarrow> Inl (KeyError parent)
           | Some inner \<Rightarrow>
               (case map_of inner name of
                  None \<Rightarrow> Inl (KeyError name)
                | Some base \<Rightarrow> Inr base)))"

definition get_inf_ratios :: "mup \<Rightarrow> string \<Rightarrow> shape \<Rightarrow> error + nat \<times> real list" where
  "get_inf_ratios mup_ctx full_name shape =
     (case unpack2 (rsplit CHR ''/'' full_name) of
        Inl e \<Rightarrow> Inl e
      | Inr (parent, name) \<Rightarrow>
          (case base_shape_of mup_ctx parent name of
             Inl e \<Rightarrow> Inl e
           | Inr base \<Rightarrow>
               (let n_inf = count_inf base shape in
                if n_inf > 2 then Inl (ValueError (too_many_msg n_inf full_name))
                else (case inf_ratios_of (zip base shape) of
                        Inl e \<Rightarrow> Inl e
                      | Inr inf_ratios \<Rightarrow> Inr (n_inf, inf_ratios)))))"

section \<open>Initialisation interceptor: \<^verbatim>\<open>_mup_creator\<close>\<close>

text \<open>
  What the interceptor reads of the Haiku context: the full name of the parameter and
  the outcome of \<^verbatim>\<open>isinstance(context.module, Readout)\<close>.
\<close>

record param_context =
  ctx_full_name :: string
  ctx_is_readout :: bool

text \<open>
  An initialiser is either one supplied by the caller (of some type \<open>'i\<close>) or the
  wrapper \<^verbatim>\<open>ConstantStdInit(init, div=d)\<close> built by the interceptor.
\<close>

datatype 'i initializer =
    Init 'i
  | ConstantStdInit "'i initializer" real

text \<open>
  Modelled from the spec: the class \<^verbatim>\<open>ConstantStdInit\<close> of module \<^verbatim>\<open>.init\<close> is not
  among the sources; only its construction with \<^verbatim>\<open>div = 1 / width_mult\<close> is. The spec
  (4.3, step 6) says that this wrapper rescales the initialiser so that its generated
  standard deviation is divided by \<open>width_mult\<close>, that is, multiplied by \<open>div\<close>.
  \<open>sd\<close> gives the standard deviation of a caller's initialiser.
\<close>

fun init_std :: "('i \<Rightarrow> real) \<Rightarrow> 'i initializer \<Rightarrow> real" where
  "init_std sd (Init i) = sd i"
| "init_std sd (ConstantStdInit i d) = init_std sd i * d"

text \<open>
  Lines 113 to 132: \<open>width_mult\<close> and the pair of multipliers handed to
  \<^const>\<open>set_lrs\<close>, by case on the number of infinite dimensions. The arguments of the call
  are evaluated before it, so a failing division leaves the session untouched.
\<close>

definition width_mult_of :: "nat \<Rightarrow> real list \<Rightarrow> error + real" where
  "width_mult_of n_inf inf_ratios = (if n_inf = 0 then Inr 1 else getitem inf_ratios 0)"

definition record_lrs :: "mup \<Rightarrow> string \<Rightarrow> nat \<Rightarrow> real list \<Rightarrow> real \<Rightarrow> error + mup" where
  "record_lrs mup_ctx full_name n_inf inf_ratios width_mult =
     (if n_inf = 2 then
        (case getitem inf_ratios 1 of
           Inl e \<Rightarrow> Inl e
         | Inr r1 \<Rightarrow>
             (case truediv width_mult r1 of
                Inl e \<Rightarrow> Inl e
              | Inr fanin_fanout_ratio \<Rightarrow>
                  (case truediv 1 fanin_fanout_ratio of
                     Inl e \<Rightarrow> Inl e
                   | Inr sgd_lr \<Rightarrow>
                       (case truediv 1 width_mult of
                          Inl e \<Rightarrow> Inl e
                        | Inr adam_lr \<Rightarrow> set_lrs mup_ctx full_name sgd_lr adam_lr))))
      else if n_inf = 1 then set_lrs mup_ctx full_name width_mult 1
      else set_lrs mup_ctx full_name 1 1)"

text \<open>
  The interceptor returns what \<open>next_creator\<close> returns, or the error, together with the
  session as the call leaves it: the registries are written before the readout
  division of line 136, so an error there comes with a changed session.
\<close>

definition mup_creator ::
  "(shape \<Rightarrow> 'd \<Rightarrow> 'i initializer \<Rightarrow> 'r) \<Rightarrow> shape \<Rightarrow> 'd \<Rightarrow> 'i initializer \<Rightarrow> param_context \<Rightarrow>
   mup option \<Rightarrow> (error + 'r) \<times> mup option" where
  "mup_creator next_creator shape dtype init ctx mup_ctx =
     (case mup_ctx of
        None \<Rightarrow>
          (Inl (ValueError ''Attempted to use `use_mup()` outside of `apply_mup` context''), None)
      | Some m \<Rightarrow>
          (case get_inf_ratios m (ctx_full_name ctx) shape of
             Inl e \<Rightarrow> (Inl e, Some m)
           | Inr (n_inf, inf_ratios) \<Rightarrow>
               (case unpack2 (rsplit CHR ''/'' (ctx_full_name ctx)) of
                  Inl e \<Rightarrow> (Inl e, Some m)
                | Inr (parent, _) \<Rightarrow>
                    (case width_mult_of n_inf inf_ratios of
                       Inl e \<Rightarrow> (Inl e, Some m)
                     | Inr width_mult \<Rightarrow>
                         (case record_lrs m (ctx_full_name ctx) n_inf inf_ratios width_mult of
                            Inl e \<Rightarrow> (Inl e, Some m)
                          | Inr m1 \<Rightarrow>
                              (if ctx_is_readout ctx \<and> n_inf = 1 then
                                 (case truediv 1 width_mult of
                                    Inl e \<Rightarrow> (Inl e, Some m1)
                                  | Inr d \<Rightarrow>
                                      (Inr (next_creator shape dtype (ConstantStdInit init d)),
                                       Some (m1\<lparr>readout_mults :=
                                         AList.update parent width_mult (readout_mults m1)\<rparr>)))
                               else (Inr (next_creator shape dtype init), Some m1)))))))"

section \<open>Forward-pass interceptor: \<^verbatim>\<open>_mup_getter\<close>\<close>

text \<open>
  A parameter value is an array, here the list of its entries; dividing or multiplying
  it by a scalar acts on every entry. \<^verbatim>\<open>not width_mult\<close> holds for \<^verbatim>\<open>None\<close> and
  for a multiplier equal to zero.
\<close>

type_synonym array = "real list"

definition mup_getter :: "('v \<Rightarrow> array) \<Rightarrow> 'v \<Rightarrow> param_context \<Rightarrow> mup \<Rightarrow> array" where
  "mup_getter next_getter v ctx mup_ctx =
     (let val = next_getter v in
      if \<not> ctx_is_readout ctx then val
      else
        (let parent = hd (rsplit CHR ''/'' (ctx_full_name ctx)) in
         (case map_of (readout_mults mup_ctx) parent of
            None \<Rightarrow> val
          | Some width_mult \<Rightarrow>
              if width_mult = 0 then val else map (\<lambda>x. x / width_mult) val)))"

section \<open>Session context: \<^verbatim>\<open>Mup.init_context\<close>\<close>

text \<open>
  The process: the context variable \<^verbatim>\<open>_mup_context\<close>, which holds the identity of a
  session or \<^verbatim>\<open>None\<close> (its default), and the \<^verbatim>\<open>Mup\<close> objects by identity.
\<close>

record 'r process =
  mup_context :: "'r option"
  objects :: "'r \<Rightarrow> mup"

definition set_base_shapes ::
  "'r \<Rightarrow> (string, (string, shape) dict) dict option \<Rightarrow> 'r process \<Rightarrow> 'r process" where
  "set_base_shapes self bs w =
     w\<lparr>objects := (objects w)(self := (objects w self)\<lparr>base_shapes := bs\<rparr>)\<rparr>"

text \<open>
  The state in which the body of the \<^verbatim>\<open>with\<close> statement starts: lines 31 and 32.
\<close>

definition entered :: "'r \<Rightarrow> (string, (string, shape) dict) dict \<Rightarrow> 'r process \<Rightarrow> 'r process" where
  "entered self bs w = (set_base_shapes self (Some bs) w)\<lparr>mup_context := Some self\<rparr>"

text \<open>
  \<open>body\<close> is the block under the \<^verbatim>\<open>with\<close>: any code, which may change the process
  and may raise. The token of \<^verbatim>\<open>_mup_context.set\<close> remembers the value the variable
  had before, and \<^verbatim>\<open>reset(token)\<close> puts that value back. The re-use check of line 33
  stands after the two assignments and before the \<^verbatim>\<open>try\<close>.
\<close>

definition init_context ::
  "'r \<Rightarrow> (string, (string, shape) dict) dict \<Rightarrow> ('r process \<Rightarrow> (error + 'a) \<times> 'r process) \<Rightarrow>
   'r process \<Rightarrow> (error + 'a) \<times> 'r process" where
  "init_context self bs body w =
     (let token = mup_context w;
          w2 = entered self bs w
      in if length (adam_lrs (objects w2 self)) \<noteq> 0
         then (Inl (ValueError ''Attempted to re-use mup context''), w2)
         else (case body w2 of
                 (r, w3) \<Rightarrow> (r, set_base_shapes self None (w3\<lparr>mup_context := token\<rparr>))))"

section \<open>Optimizer wrapper: \<^verbatim>\<open>Mup.wrap_optimizer\<close>\<close>

text \<open>
  A parameter tree as Haiku builds it: scope to (parameter name to leaf).
  \<^verbatim>\<open>jax.tree_map(f, t1, t2)\<close> on two such trees applies \<open>f\<close> to the leaves under
  the same keys and fails unless both trees have the same keys at both levels.
\<close>

type_synonym 'a tree = "(string, (string, 'a) dict) dict"

fun zip_dict ::
  "('a \<Rightarrow> 'b \<Rightarrow> error + 'c) \<Rightarrow> ('k, 'a) dict \<Rightarrow> ('k, 'b) dict \<Rightarrow> error + ('k, 'c) dict" where
  "zip_dict f [] d2 = Inr []"
| "zip_dict f ((k, a) # d1) d2 =
     (case map_of d2 k of
        None \<Rightarrow> Inl TreeStructureError
      | Some b \<Rightarrow>
          (case f a b of
             Inl e \<Rightarrow> Inl e
           | Inr c \<Rightarrow> (case zip_dict f d1 d2 of Inl e \<Rightarrow> Inl e | Inr r \<Rightarrow> Inr ((k, c) # r))))"

definition dict_map2 ::
  "('a \<Rightarrow> 'b \<Rightarrow> error + 'c) \<Rightarrow> ('k, 'a) dict \<Rightarrow> ('k, 'b) dict \<Rightarrow> error + ('k, 'c) dict" where
  "dict_map2 f d1 d2 =
     (if length d1 \<noteq> length d2 then Inl TreeStructureError else zip_dict f d1 d2)"

definition tree_map :: "('a \<Rightarrow> 'b \<Rightarrow> 'c) \<Rightarrow> 'a tree \<Rightarrow> 'b tree \<Rightarrow> error + 'c tree" where
  "tree_map f t1 t2 = dict_map2 (dict_map2 (\<lambda>a b. Inr (f a b))) t1 t2"

text \<open>
  An Optax gradient transformation: \<open>init\<close> and \<open>update\<close>. \<^verbatim>\<open>optax.chain\<close> runs the
  first transformation, hands its updates to the second, and pairs the states.
\<close>

record ('p, 's) gradient_transformation =
  gt_init :: "'p \<Rightarrow> 's"
  gt_update :: "array tree \<Rightarrow> 's \<Rightarrow> 'p option \<Rightarrow> error + array tree \<times> 's"

definition chain ::
  "('p, 's1) gradient_transformation \<Rightarrow> ('p, 's2) gradient_transformation \<Rightarrow>
   ('p, 's1 \<times> 's2) gradient_transformation" where
  "chain t1 t2 =
     \<lparr>gt_init = (\<lambda>params. (gt_init t1 params, gt_init t2 params)),
      gt_update = (\<lambda>updates state params.
        (case gt_update t1 updates (fst state) params of
           Inl e \<Rightarrow> Inl e
         | Inr (updates1, s1) \<Rightarrow>
             (case gt_update t2 updates1 (snd state) params of
                Inl e \<Rightarrow> Inl e
              | Inr (updates2, s2) \<Rightarrow> Inr (updates2, (s1, s2)))))\<rparr>"

datatype empty_state = EmptyState

definition init_fn :: "'p \<Rightarrow> empty_state" where
  "init_fn params = EmptyState"

text \<open>
  \<^verbatim>\<open>update_fn\<close> is a closure over the session object: it reads the registry when it
  runs, so it takes the session as it is at that moment.
\<close>

definition update_fn ::
  "mup \<Rightarrow> bool \<Rightarrow> array tree \<Rightarrow> 's \<Rightarrow> 'p option \<Rightarrow> error + array tree \<times> 's" where
  "update_fn self adam updates state params =
     (case tree_map (\<lambda>update scale. map (\<lambda>x. x * scale) update) updates
             (if adam then adam_lrs self else sgd_lrs self) of
        Inl e \<Rightarrow> Inl e
      | Inr updates' \<Rightarrow> Inr (updates', state))"

text \<open>
  The wrapper checks the registry of the session as it is at the call; the
  transformation it returns is given the session as it is when it is used.
\<close>

definition wrap_optimizer ::
  "mup \<Rightarrow> ('p, 's) gradient_transformation \<Rightarrow> bool \<Rightarrow>
   error + (mup \<Rightarrow> ('p, 's \<times> empty_state) gradient_transformation)" where
  "wrap_optimizer self optimizer adam =
     (if adam_lrs self = [] then
        Inl (ValueError ''Attempted to wrap optimizer before initializing network'')
      else
        Inr (\<lambda>live. chain optimizer \<lparr>gt_init = init_fn, gt_update = update_fn live adam\<rparr>))"

section \<open>Notions of the specification\<close>

text \<open>
  The specification's words for the shape-ratio analysis: the positions at which the
  two shapes differ, in dimension order, and the ratio actual / base at each of them.
\<close>

definition spec_differing :: "shape \<Rightarrow> shape \<Rightarrow> nat list" where
  "spec_differing base shape = filter (\<lambda>i. base ! i \<noteq> shape ! i) [0..<length base]"

definition spec_ratios :: "shape \<Rightarrow> shape \<Rightarrow> real list" where
  "spec_ratios base shape =
     map (\<lambda>i. real_of_int (shape ! i) / real_of_int (base ! i)) (spec_differing base shape)"

text \<open>
  The specification's split of a full name: at the last separator only, into the
  immediate parent scope and the local name; a name without a separator has no such
  decomposition.
\<close>

fun spec_split_last :: "char \<Rightarrow> string \<Rightarrow> (string \<times> string) option" where
  "spec_split_last sep [] = None"
| "spec_split_last sep (c # cs) =
     (case spec_split_last sep cs of
        Some (parent, name) \<Rightarrow> Some (c # parent, name)
      | None \<Rightarrow> if c = sep then Some ([], cs) else None)"

text \<open>Reading a registry at a scope and a name.\<close>

definition lookup2 :: "('a, ('b, 'v) dict) dict \<Rightarrow> 'a \<Rightarrow> 'b \<Rightarrow> 'v option" where
  "lookup2 d parent name =
     (case map_of d parent of None \<Rightarrow> None | Some inner \<Rightarrow> map_of inner name)"

text \<open>The key structure of a registry: its scopes and, under each, its names.\<close>

definition key_structure :: "('a, ('b, 'v) dict) dict \<Rightarrow> ('a \<times> 'b list) list" where
  "key_structure d = map (\<lambda>(parent, inner). (parent, map fst inner)) d"

text \<open>
  A sequence of calls of \<^const>\<open>set_lrs\<close>, each with its full name and its two
  multipliers; a call that raises leaves the session as it was, and the next one runs on
  that session.
\<close>

fun set_lrs_all :: "mup \<Rightarrow> (string \<times> real \<times> real) list \<Rightarrow> mup" where
  "set_lrs_all m [] = m"
| "set_lrs_all m ((full_name, sgd_lr, adam_lr) # calls) =
     set_lrs_all (case set_lrs m full_name sgd_lr adam_lr of Inl e \<Rightarrow> m | Inr m' \<Rightarrow> m') calls"

section \<open>A concrete session\<close>

text \<open>
  A session inside an initialisation context whose base model has a linear layer
  \<open>lin\<close> with a square weight and a bias, and a readout layer \<open>out\<close>.
\<close>

definition demo_session :: mup where
  "demo_session =
     mup_init\<lparr>base_shapes := Some
       [(''lin'', [(''w'', [128, 128]), (''b'', [128])]),
        (''out'', [(''w'', [128, 10])])]\<rparr>"

text \<open>
  The specification's rule for the multipliers (4.3, steps 3 and 4), from the number
  \<open>k\<close> of infinite dimensions and their ratios: \<open>width_mult\<close>, and the pair
  (sgd_lr, adam_lr).
\<close>

definition spec_width_mult :: "nat \<Rightarrow> real list \<Rightarrow> real" where
  "spec_width_mult k ratios = (if k = 0 then 1 else ratios ! 0)"

definition spec_lrs :: "nat \<Rightarrow> real list \<Rightarrow> real \<times> real" where
  "spec_lrs k ratios =
     (if k = 0 then (1, 1)
      else if k = 1 then (spec_width_mult k ratios, 1)
      else (1 / (spec_width_mult k ratios / ratios ! 1), 1 / spec_width_mult k ratios))"

text \<open>A base model with a convolution kernel of four dimensions.\<close>

definition demo_conv :: mup where
  "demo_conv = mup_init\<lparr>base_shapes := Some [(''conv'', [(''w'', [3, 3, 16, 16])])]\<rparr>"

text \<open>
  A session after initialisation: the readout of scope \<open>mlp\<close> has multiplier 8, and
  the base model also has a nested scope \<open>mlp/linear\<close>.
\<close>

definition demo_nested :: mup where
  "demo_nested =
     \<lparr>base_shapes = Some [(''mlp'', [(''w'', [128, 10])]), (''mlp/linear'', [(''w'', [128, 128])])],
      readout_mults = [(''mlp'', 8)],
      adam_lrs = [(''mlp'', [(''w'', 1)])],
      sgd_lrs = [(''mlp'', [(''w'', 8)])]\<rparr>"

text \<open>
  No recorded readout multiplier is zero. The interceptor keeps this: it stores
  \<open>width_mult\<close> only after \<open>1 / width_mult\<close> has been computed.
\<close>

definition readout_nonzero :: "mup \<Rightarrow> bool" where
  "readout_nonzero m = (0 \<notin> snd ` set (readout_mults m))"

section \<open>Concrete processes\<close>

text \<open>
  A session that has been initialised before, base shapes for a new pass, two bodies of
  a \<^verbatim>\<open>with\<close> block (one returns, one initialises a parameter and then raises), and
  three processes: idle, idle with a used session, and inside the context of another
  session (identity 1).
\<close>

definition demo_used :: mup where
  "demo_used =
     \<lparr>base_shapes = None, readout_mults = [],
      adam_lrs = [(''lin'', [(''w'', 1)])], sgd_lrs = [(''lin'', [(''w'', 8)])]\<rparr>"

definition demo_bs :: "(string, (string, shape) dict) dict" where
  "demo_bs = [(''lin'', [(''w'', [128])])]"

definition demo_body_return :: "nat process \<Rightarrow> (error + unit) \<times> nat process" where
  "demo_body_return w = (Inr (), w)"

definition demo_body_raise :: "nat process \<Rightarrow> (error + unit) \<times> nat process" where
  "demo_body_raise w = (Inl (KeyError ''w''), w\<lparr>objects := (objects w)(0 := demo_used)\<rparr>)"

definition demo_idle :: "nat process" where
  "demo_idle = \<lparr>mup_context = None, objects = (\<lambda>s. mup_init)\<rparr>"

definition demo_reused :: "nat process" where
  "demo_reused = \<lparr>mup_context = None, objects = (\<lambda>s. demo_used)\<rparr>"

definition demo_outer_active :: "nat process" where
  "demo_outer_active = \<lparr>mup_context = Some 1, objects = (\<lambda>s. mup_init)\<rparr>"

text \<open>
  Two dicts have the same keys; two trees have the same structure: the same scopes
  and, under each scope, the same names (in any order).
\<close>

definition same_keys :: "('k, 'a) dict \<Rightarrow> ('k, 'b) dict \<Rightarrow> bool" where
  "same_keys d1 d2 \<longleftrightarrow>
     distinct (map fst d1) \<and> distinct (map fst d2) \<and> set (map fst d1) = set (map fst d2)"

definition same_structure :: "'a tree \<Rightarrow> 'b tree \<Rightarrow> bool" where
  "same_structure t1 t2 \<longleftrightarrow>
     same_keys t1 t2 \<and>
     list_all (\<lambda>(parent, inner). case map_of t2 parent of
        None \<Rightarrow> False | Some inner2 \<Rightarrow> same_keys inner inner2) t1"

text \<open>A base optimizer that hands the updates on, and an update tree for \<open>mlp/w\<close>.\<close>

definition demo_optimizer :: "(unit, unit) gradient_transformation" where
  "demo_optimizer = \<lparr>gt_init = (\<lambda>params. ()), gt_update = (\<lambda>updates state params. Inr (updates, state))\<rparr>"

definition demo_updates :: "array tree" where
  "demo_updates = [(''mlp'', [(''w'', [1, 2])])]"

section \<open>Properties\<close>


subsection \<open>Splitting names\<close>

lemma rsplit_nonempty: "rsplit sep s \<noteq> []"
  by (induction s) auto

lemma length_rsplit: "length (rsplit sep s) = Suc (count_list s sep)"
  by (induction s) (auto simp: rsplit_nonempty)

lemma hd_rsplit: "hd (rsplit sep s) = takeWhile (\<lambda>c. c \<noteq> sep) s"
  by (induction s) auto

subsection \<open>Shape-ratio analysis\<close>

lemma zip_as_index_map:
  "length xs = length ys \<Longrightarrow> zip xs ys = map (\<lambda>i. (xs ! i, ys ! i)) [0..<length xs]"
  by (intro nth_equalityI) auto

lemma count_inf_spec:
  assumes "length base = length shape"
  shows "count_inf base shape = length (spec_differing base shape)"
proof -
  have "filter (\<lambda>(a, b). a \<noteq> b) (zip base shape) =
        map (\<lambda>i. (base ! i, shape ! i)) (spec_differing base shape)"
    unfolding spec_differing_def
    by (subst zip_as_index_map [OF assms]) (simp add: filter_map comp_def)
  then show ?thesis by (simp add: count_inf_def)
qed

lemma inf_ratios_of_nonzero:
  "\<forall>p\<in>set ps. fst p \<noteq> 0 \<Longrightarrow>
   inf_ratios_of ps =
     Inr (map (\<lambda>(a, b). real_of_int b / real_of_int a) (filter (\<lambda>(a, b). a \<noteq> b) ps))"
  by (induction ps) (auto simp: truediv_def)

lemma inf_ratios_of_spec:
  assumes len: "length base = length shape" and pos: "\<forall>d\<in>set base. 0 < d"
  shows "inf_ratios_of (zip base shape) = Inr (spec_ratios base shape)"
proof -
  have nz: "\<forall>p\<in>set (zip base shape). fst p \<noteq> 0"
    using pos by (auto dest!: set_zip_leftD)
  have "map (\<lambda>(a, b). real_of_int b / real_of_int a) (filter (\<lambda>(a, b). a \<noteq> b) (zip base shape)) =
        spec_ratios base shape"
    unfolding spec_ratios_def spec_differing_def
    by (subst zip_as_index_map [OF len]) (simp add: filter_map comp_def)
  with inf_ratios_of_nonzero [OF nz] show ?thesis by simp
qed

lemma get_inf_ratios_spec:
  assumes "unpack2 (rsplit CHR ''/'' full_name) = Inr (parent, name)"
    and "base_shape_of mup_ctx parent name = Inr base"
    and "length base = length shape"
    and "\<forall>d\<in>set base. 0 < d"
    and "length (spec_differing base shape) \<le> 2"
  shows "get_inf_ratios mup_ctx full_name shape =
           Inr (length (spec_differing base shape), spec_ratios base shape)"
  using assms by (simp add: get_inf_ratios_def count_inf_spec inf_ratios_of_spec)

text \<open>
  Claim C2. Let the full name resolve to the base shape \<open>base\<close>, let \<open>base\<close> and the
  actual shape have the same length and positive dimensions, and let them differ at
  exactly \<open>k\<close> positions with \<open>k\<close> at most two. Then the analysis returns the count \<open>k\<close>
  together with the ratios actual / base of exactly the differing positions, in
  dimension order.
\<close>

theorem C2_analysis_counts_and_ratios:
  assumes name: "unpack2 (rsplit CHR ''/'' full_name) = Inr (parent, name)"
    and base: "base_shape_of mup_ctx parent name = Inr base"
    and len: "length base = length shape"
    and pos: "\<forall>d\<in>set base. 0 < d" "\<forall>d\<in>set shape. 0 < d"
    and k: "length (spec_differing base shape) = k" "k \<le> 2"
  shows "get_inf_ratios mup_ctx full_name shape = Inr (k, spec_ratios base shape)"
  using get_inf_ratios_spec [OF name base len pos(1)] k by simp

theorem C2_witness:
  "get_inf_ratios demo_session ''lin/w'' [1024, 128] = Inr (1, [8])"
proof -
  have name: "unpack2 (rsplit CHR ''/'' ''lin/w'') = Inr (''lin'', ''w'')"
    by (simp add: unpack2_def)
  have base: "base_shape_of demo_session ''lin'' ''w'' = Inr [128, 128]"
    by (simp add: base_shape_of_def demo_session_def)
  have d: "spec_differing [128, 128] [1024, 128] = [0]"
    by (simp add: spec_differing_def upt_rec)
  have "get_inf_ratios demo_session ''lin/w'' [1024, 128] =
          Inr (1, spec_ratios [128, 128] [1024, 128])"
    by (rule C2_analysis_counts_and_ratios [OF name base]) (simp_all add: d)
  then show ?thesis by (simp add: spec_ratios_def d)
qed

subsection \<open>The initialisation interceptor on a resolved name\<close>

lemma spec_ratios_length: "length (spec_ratios base shape) = length (spec_differing base shape)"
  by (simp add: spec_ratios_def)

lemma spec_ratios_pos:
  assumes len: "length base = length shape"
    and pos: "\<forall>d\<in>set base. 0 < d" "\<forall>d\<in>set shape. 0 < d"
  shows "\<forall>r\<in>set (spec_ratios base shape). 0 < r"
  using assms by (auto simp: spec_ratios_def spec_differing_def)

lemma lookup2_setitem2: "lookup2 (setitem2 d parent name v) parent name = Some v"
  by (simp add: lookup2_def setitem2_def update_conv')

lemma set_lrs_resolved:
  "unpack2 (rsplit CHR ''/'' full_name) = Inr (parent, name) \<Longrightarrow>
   set_lrs m full_name sgd_lr adam_lr =
     Inr (m\<lparr>sgd_lrs := setitem2 (sgd_lrs m) parent name sgd_lr,
            adam_lrs := setitem2 (adam_lrs m) parent name adam_lr\<rparr>)"
  by (simp add: set_lrs_def)

lemma record_lrs_spec:
  assumes name: "unpack2 (rsplit CHR ''/'' full_name) = Inr (parent, name)"
    and k: "length rs = k" "k \<le> 2"
    and nz: "\<forall>r\<in>set rs. 0 < r"
  shows "record_lrs m full_name k rs (spec_width_mult k rs) =
           Inr (m\<lparr>sgd_lrs := setitem2 (sgd_lrs m) parent name (fst (spec_lrs k rs)),
                  adam_lrs := setitem2 (adam_lrs m) parent name (snd (spec_lrs k rs))\<rparr>)"
proof -
  consider "k = 0" | "k = 1" | "k = 2" using k(2) by linarith
  then show ?thesis
  proof cases
    case 1
    then show ?thesis
      by (simp add: record_lrs_def spec_lrs_def set_lrs_resolved [OF name])
  next
    case 2
    then show ?thesis
      by (simp add: record_lrs_def spec_lrs_def set_lrs_resolved [OF name])
  next
    case 3
    with k(1) obtain r0 r1 where rs: "rs = [r0, r1]"
      by (cases rs; cases "tl rs"; cases "tl (tl rs)") auto
    with nz have "r0 \<noteq> 0" "r1 \<noteq> 0" by auto
    with 3 rs show ?thesis
      by (simp add: record_lrs_def spec_lrs_def spec_width_mult_def getitem_def truediv_def
          set_lrs_resolved [OF name])
  qed
qed

lemma width_mult_of_spec:
  "length rs = k \<Longrightarrow> width_mult_of k rs = Inr (spec_width_mult k rs)"
  by (auto simp: width_mult_of_def spec_width_mult_def getitem_def)

lemma spec_width_mult_pos:
  "length rs = k \<Longrightarrow> \<forall>r\<in>set rs. 0 < r \<Longrightarrow> 0 < spec_width_mult k rs"
  by (cases rs) (auto simp: spec_width_mult_def)

lemma mup_creator_spec:
  assumes name: "unpack2 (rsplit CHR ''/'' (ctx_full_name ctx)) = Inr (parent, name)"
    and base: "base_shape_of m parent name = Inr base"
    and len: "length base = length shape"
    and pos: "\<forall>d\<in>set base. 0 < d" "\<forall>d\<in>set shape. 0 < d"
    and k: "length (spec_differing base shape) = k" "k \<le> 2"
    and rs: "rs = spec_ratios base shape"
    and m1: "m1 = m\<lparr>sgd_lrs := setitem2 (sgd_lrs m) parent name (fst (spec_lrs k rs)),
                     adam_lrs := setitem2 (adam_lrs m) parent name (snd (spec_lrs k rs))\<rparr>"
  shows "mup_creator next_creator shape dtype init ctx (Some m) =
           (if ctx_is_readout ctx \<and> k = 1 then
              (Inr (next_creator shape dtype (ConstantStdInit init (1 / spec_width_mult k rs))),
               Some (m1\<lparr>readout_mults :=
                 AList.update parent (spec_width_mult k rs) (readout_mults m1)\<rparr>))
            else (Inr (next_creator shape dtype init), Some m1))"
proof -
  have g: "get_inf_ratios m (ctx_full_name ctx) shape = Inr (k, rs)"
    using get_inf_ratios_spec [OF name base len pos(1)] k rs by simp
  have lrs: "length rs = k" using k(1) rs by (simp add: spec_ratios_length)
  have rpos: "\<forall>r\<in>set rs. 0 < r" using spec_ratios_pos [OF len pos] rs by simp
  have w: "width_mult_of k rs = Inr (spec_width_mult k rs)"
    by (rule width_mult_of_spec [OF lrs])
  have r: "record_lrs m (ctx_full_name ctx) k rs (spec_width_mult k rs) = Inr m1"
    using record_lrs_spec [OF name lrs k(2) rpos] m1 by simp
  have nz: "spec_width_mult k rs \<noteq> 0"
    using spec_width_mult_pos [OF lrs rpos] by simp
  show ?thesis
    using nz by (auto simp: mup_creator_def g name w r truediv_def)
qed

subsection \<open>The interceptor where the code's split and the specification's agree\<close>

text \<open>
  Let the parameter's full name have one separator and resolve to the base shape
  \<open>base\<close>, let \<open>base\<close> and the requested shape have the same length and positive
  dimensions, and let them differ in \<open>k\<close> dimensions, \<open>k\<close> at most two, with ratios
  \<open>rs\<close>. Then the interceptor returns without error and leaves a session whose two
  registries are the old ones with exactly the entry (parent, name) written: for
  \<open>k = 0\<close> sgd_lr and adam_lr are both 1; for \<open>k = 1\<close> sgd_lr is the first ratio
  (\<open>width_mult\<close>) and adam_lr is 1; for \<open>k = 2\<close> sgd_lr is 1 / (\<open>width_mult\<close> / second
  ratio) and adam_lr is 1 / \<open>width_mult\<close>.
\<close>

theorem creator_records_learning_rates:
  assumes name: "unpack2 (rsplit CHR ''/'' (ctx_full_name ctx)) = Inr (parent, name)"
    and base: "base_shape_of m parent name = Inr base"
    and len: "length base = length shape"
    and pos: "\<forall>d\<in>set base. 0 < d" "\<forall>d\<in>set shape. 0 < d"
    and k: "length (spec_differing base shape) = k" "k \<le> 2"
    and rs: "rs = spec_ratios base shape"
  shows "\<exists>r m'. mup_creator next_creator shape dtype init ctx (Some m) = (Inr r, Some m') \<and>
           sgd_lrs m' = setitem2 (sgd_lrs m) parent name (fst (spec_lrs k rs)) \<and>
           adam_lrs m' = setitem2 (adam_lrs m) parent name (snd (spec_lrs k rs)) \<and>
           lookup2 (sgd_lrs m') parent name =
             Some (if k = 0 then 1 else if k = 1 then rs ! 0 else 1 / (rs ! 0 / rs ! 1)) \<and>
           lookup2 (adam_lrs m') parent name =
             Some (if k = 0 then 1 else if k = 1 then 1 else 1 / rs ! 0)"
proof -
  define m1 where "m1 = m\<lparr>sgd_lrs := setitem2 (sgd_lrs m) parent name (fst (spec_lrs k rs)),
                     adam_lrs := setitem2 (adam_lrs m) parent name (snd (spec_lrs k rs))\<rparr>"
  have c: "mup_creator next_creator shape dtype init ctx (Some m) =
           (if ctx_is_readout ctx \<and> k = 1 then
              (Inr (next_creator shape dtype (ConstantStdInit init (1 / spec_width_mult k rs))),
               Some (m1\<lparr>readout_mults :=
                 AList.update parent (spec_width_mult k rs) (readout_mults m1)\<rparr>))
            else (Inr (next_creator shape dtype init), Some m1))"
    by (rule mup_creator_spec [OF name base len pos k rs m1_def])
  have s: "fst (spec_lrs k rs) = (if k = 0 then 1 else if k = 1 then rs ! 0 else 1 / (rs ! 0 / rs ! 1))"
    by (simp add: spec_lrs_def spec_width_mult_def)
  have a: "snd (spec_lrs k rs) = (if k = 0 then 1 else if k = 1 then 1 else 1 / rs ! 0)"
    by (simp add: spec_lrs_def spec_width_mult_def)
  show ?thesis
  proof (cases "ctx_is_readout ctx \<and> k = 1")
    case True
    then show ?thesis
      unfolding c s [symmetric] a [symmetric]
      by (simp add: m1_def lookup2_setitem2)
  next
    case False
    then show ?thesis
      unfolding c s [symmetric] a [symmetric]
      by (simp add: m1_def lookup2_setitem2)
  qed
qed

theorem creator_records_learning_rates_example:
  "\<exists>r m'. mup_creator (\<lambda>s d i. i) [1024, 512] () (Init ())
             \<lparr>ctx_full_name = ''lin/w'', ctx_is_readout = False\<rparr> (Some demo_session) = (Inr r, Some m') \<and>
     lookup2 (sgd_lrs m') ''lin'' ''w'' = Some (1 / 2) \<and>
     lookup2 (adam_lrs m') ''lin'' ''w'' = Some (1 / 8)"
proof -
  let ?ctx = "\<lparr>ctx_full_name = ''lin/w'', ctx_is_readout = False\<rparr>"
  have name: "unpack2 (rsplit CHR ''/'' (ctx_full_name ?ctx)) = Inr (''lin'', ''w'')"
    by (simp add: unpack2_def)
  have base: "base_shape_of demo_session ''lin'' ''w'' = Inr [128, 128]"
    by (simp add: base_shape_of_def demo_session_def)
  have d: "spec_differing [128, 128] [1024, 512] = [0, 1]"
    by (simp add: spec_differing_def upt_rec)
  have rs: "[8, 4] = spec_ratios [128, 128] [1024, 512]"
    by (simp add: spec_ratios_def d)
  have "\<exists>r m'. mup_creator (\<lambda>s d i. i) [1024, 512] () (Init ()) ?ctx (Some demo_session) = (Inr r, Some m') \<and>
           sgd_lrs m' = setitem2 (sgd_lrs demo_session) ''lin'' ''w'' (fst (spec_lrs 2 [8, 4])) \<and>
           adam_lrs m' = setitem2 (adam_lrs demo_session) ''lin'' ''w'' (snd (spec_lrs 2 [8, 4])) \<and>
           lookup2 (sgd_lrs m') ''lin'' ''w'' =
             Some (if (2::nat) = 0 then 1 else if (2::nat) = 1 then [8, 4] ! 0 else 1 / ([8, 4] ! 0 / [8, 4] ! 1)) \<and>
           lookup2 (adam_lrs m') ''lin'' ''w'' =
             Some (if (2::nat) = 0 then 1 else if (2::nat) = 1 then 1 else 1 / [8, 4] ! 0)"
    by (rule creator_records_learning_rates [OF name base _ _ _ _ _ rs]) (simp_all add: d)
  then show ?thesis by simp blast
qed

text \<open>
  Under the same conditions, with \<open>width_mult\<close> the first ratio: when the module is a
  readout and exactly one dimension is infinite, \<open>width_mult\<close> is stored in the readout
  registry under the parent scope, and the initialiser handed to the next creation
  step is \<^verbatim>\<open>ConstantStdInit(init, div = 1 / width_mult)\<close>, whose standard deviation
  (as the specification describes that class) is that of \<open>init\<close> divided by
  \<open>width_mult\<close>; otherwise the readout registry is as before and the initialiser is
  handed on as it came.
\<close>

theorem creator_readout_multiplier_and_initializer:
  assumes name: "unpack2 (rsplit CHR ''/'' (ctx_full_name ctx)) = Inr (parent, name)"
    and base: "base_shape_of m parent name = Inr base"
    and len: "length base = length shape"
    and pos: "\<forall>d\<in>set base. 0 < d" "\<forall>d\<in>set shape. 0 < d"
    and k: "length (spec_differing base shape) = k" "k \<le> 2"
    and wm: "width_mult = spec_ratios base shape ! 0"
  shows "(ctx_is_readout ctx \<and> k = 1 \<longrightarrow>
            (\<exists>m'. mup_creator next_creator shape dtype init ctx (Some m) =
                     (Inr (next_creator shape dtype (ConstantStdInit init (1 / width_mult))), Some m') \<and>
                   readout_mults m' = AList.update parent width_mult (readout_mults m) \<and>
                   map_of (readout_mults m') parent = Some width_mult \<and>
                   init_std sd (ConstantStdInit init (1 / width_mult)) = init_std sd init / width_mult)) \<and>
         (\<not> (ctx_is_readout ctx \<and> k = 1) \<longrightarrow>
            (\<exists>m'. mup_creator next_creator shape dtype init ctx (Some m) =
                     (Inr (next_creator shape dtype init), Some m') \<and>
                   readout_mults m' = readout_mults m))"
proof -
  define rs where "rs = spec_ratios base shape"
  define m1 where "m1 = m\<lparr>sgd_lrs := setitem2 (sgd_lrs m) parent name (fst (spec_lrs k rs)),
                     adam_lrs := setitem2 (adam_lrs m) parent name (snd (spec_lrs k rs))\<rparr>"
  have c: "mup_creator next_creator shape dtype init ctx (Some m) =
           (if ctx_is_readout ctx \<and> k = 1 then
              (Inr (next_creator shape dtype (ConstantStdInit init (1 / spec_width_mult k rs))),
               Some (m1\<lparr>readout_mults :=
                 AList.update parent (spec_width_mult k rs) (readout_mults m1)\<rparr>))
            else (Inr (next_creator shape dtype init), Some m1))"
    by (rule mup_creator_spec [OF name base len pos k rs_def m1_def])
  have w: "spec_width_mult (Suc 0) rs = width_mult"
    by (simp add: spec_width_mult_def wm rs_def)
  show ?thesis
    unfolding c by (auto simp: w m1_def update_conv')
qed

theorem creator_readout_multiplier_and_initializer_example:
  "(\<exists>m'. mup_creator (\<lambda>s d i. i) [1024, 10] () (Init (3::nat))
             \<lparr>ctx_full_name = ''out/w'', ctx_is_readout = True\<rparr> (Some demo_session) =
             (Inr (ConstantStdInit (Init 3) (1 / 8)), Some m') \<and>
          readout_mults m' = [(''out'', 8)] \<and>
          init_std real (ConstantStdInit (Init 3) (1 / 8)) = 3 / 8) \<and>
   (\<exists>m'. mup_creator (\<lambda>s d i. i) [1024, 10] () (Init (3::nat))
             \<lparr>ctx_full_name = ''out/w'', ctx_is_readout = False\<rparr> (Some demo_session) =
             (Inr (Init 3), Some m') \<and>
          readout_mults m' = [])"
proof -
  let ?ctx = "\<lparr>ctx_full_name = ''out/w'', ctx_is_readout = True\<rparr>"
  let ?ctx' = "\<lparr>ctx_full_name = ''out/w'', ctx_is_readout = False\<rparr>"
  have name: "unpack2 (rsplit CHR ''/'' (ctx_full_name ?ctx)) = Inr (''out'', ''w'')"
    by (simp add: unpack2_def)
  have name': "unpack2 (rsplit CHR ''/'' (ctx_full_name ?ctx')) = Inr (''out'', ''w'')"
    by (simp add: unpack2_def)
  have base: "base_shape_of demo_session ''out'' ''w'' = Inr [128, 10]"
    by (simp add: base_shape_of_def demo_session_def)
  have d: "spec_differing [128, 10] [1024, 10] = [0]"
    by (simp add: spec_differing_def upt_rec)
  have wm: "8 = spec_ratios [128, 10] [1024, 10] ! 0"
    by (simp add: spec_ratios_def d)
  have r: "readout_mults demo_session = []"
    by (simp add: demo_session_def mup_init_def)
  have pre: "length [128, 10::int] = length [1024, 10::int]" "\<forall>d\<in>set [128, 10::int]. 0 < d"
    "\<forall>d\<in>set [1024, 10::int]. 0 < d" "length (spec_differing [128, 10] [1024, 10]) = 1" "(1::nat) \<le> 2"
    by (simp_all add: d)
  show ?thesis
    using creator_readout_multiplier_and_initializer [OF name base pre wm, of "\<lambda>s d i. i" "()" "Init 3" real]
      creator_readout_multiplier_and_initializer [OF name' base pre wm, of "\<lambda>s d i. i" "()" "Init 3" real]
    by (simp add: r) blast
qed

text \<open>
  Claim C7. When the full name resolves to a base shape of the same length as the
  requested shape and the two differ in three or more dimensions, the analysis raises
  the \<^verbatim>\<open>ValueError\<close> whose message gives the count and the full name; the interceptor
  passes the error on and leaves the session, hence every registry, as it was.
\<close>

theorem C7_too_many_infinite_dimensions:
  assumes name: "unpack2 (rsplit CHR ''/'' (ctx_full_name ctx)) = Inr (parent, name)"
    and base: "base_shape_of m parent name = Inr base"
    and len: "length base = length shape"
    and k: "length (spec_differing base shape) = k" "3 \<le> k"
    and msg: "msg = ''At most two infinite dimensions supported. Found '' @ str_nat k @
                      '' in '' @ ctx_full_name ctx"
  shows "get_inf_ratios m (ctx_full_name ctx) shape = Inl (ValueError msg) \<and>
         mup_creator next_creator shape dtype init ctx (Some m) = (Inl (ValueError msg), Some m)"
proof -
  have "count_inf base shape = k" using count_inf_spec [OF len] k(1) by simp
  then have "get_inf_ratios m (ctx_full_name ctx) shape = Inl (ValueError msg)"
    using name base k(2) msg by (simp add: get_inf_ratios_def too_many_msg_def)
  then show ?thesis by (simp add: mup_creator_def)
qed

theorem C7_witness:
  "get_inf_ratios demo_conv ''conv/w'' [3, 5, 64, 32] =
     Inl (ValueError ''At most two infinite dimensions supported. Found 3 in conv/w'') \<and>
   mup_creator (\<lambda>s d i. i) [3, 5, 64, 32] () (Init ())
      \<lparr>ctx_full_name = ''conv/w'', ctx_is_readout = False\<rparr> (Some demo_conv) =
     (Inl (ValueError ''At most two infinite dimensions supported. Found 3 in conv/w''), Some demo_conv)"
proof -
  let ?ctx = "\<lparr>ctx_full_name = ''conv/w'', ctx_is_readout = False\<rparr>"
  have name: "unpack2 (rsplit CHR ''/'' (ctx_full_name ?ctx)) = Inr (''conv'', ''w'')"
    by (simp add: unpack2_def)
  have base: "base_shape_of demo_conv ''conv'' ''w'' = Inr [3, 3, 16, 16]"
    by (simp add: base_shape_of_def demo_conv_def)
  have d: "length (spec_differing [3, 3, 16, 16] [3, 5, 64, 32]) = 3"
    by (simp add: spec_differing_def upt_rec)
  have msg: "''At most two infinite dimensions supported. Found 3 in conv/w'' =
      ''At most two infinite dimensions supported. Found '' @ str_nat 3 @ '' in '' @ ctx_full_name ?ctx"
    by (simp add: str_nat.simps)
  show ?thesis
    using C7_too_many_infinite_dimensions [OF name base _ d _ msg, of "\<lambda>s d i. i" "()" "Init ()"]
    by simp
qed

subsection \<open>Claim about the decomposition of full names\<close>

text \<open>
  Where the code's split yields two pieces, they are the specification's (parent, name);
  a name with two or more separators yields three or more pieces and the unpacking
  raises, although the name has a last separator to split at.
\<close>

lemma unpack2_Inr_iff: "unpack2 pieces = Inr (a, b) \<longleftrightarrow> pieces = [a, b]"
  by (auto simp: unpack2_def split: list.splits)

lemma spec_split_last_no_sep: "sep \<notin> set s \<Longrightarrow> spec_split_last sep s = None"
  by (induction s) auto

lemma rsplit_no_sep: "sep \<notin> set s \<Longrightarrow> rsplit sep s = [s]"
  by (induction s) auto

lemma rsplit_two_spec:
  "rsplit sep s = [parent, name] \<Longrightarrow> spec_split_last sep s = Some (parent, name)"
proof (induction s arbitrary: parent)
  case Nil
  then show ?case by simp
next
  case (Cons c cs)
  show ?case
  proof (cases "c = sep")
    case True
    with Cons.prems have r: "rsplit sep cs = [name]" and p: "parent = []" by auto
    have "count_list cs sep = 0" using length_rsplit [of sep cs] r by simp
    then have "sep \<notin> set cs" by (simp add: count_list_0_iff)
    then have "spec_split_last sep cs = None" "rsplit sep cs = [cs]"
      by (simp_all add: spec_split_last_no_sep rsplit_no_sep)
    with r p True show ?thesis by simp
  next
    case False
    with Cons.prems obtain p' where "rsplit sep cs = [p', name]" "parent = c # p'"
      by (cases "rsplit sep cs") auto
    with Cons.IH [of p'] False show ?thesis by simp
  qed
qed

lemma spec_split_last_Some: "sep \<in> set s \<Longrightarrow> spec_split_last sep s \<noteq> None"
  by (induction s) (auto split: option.splits)

lemma unpack2_rsplit_many:
  "2 \<le> count_list s sep \<Longrightarrow>
   unpack2 (rsplit sep s) = Inl (UnpackError (Suc (count_list s sep)))"
proof -
  assume "2 \<le> count_list s sep"
  then have "3 \<le> length (rsplit sep s)" by (simp add: length_rsplit)
  then obtain a b c ds where "rsplit sep s = a # b # c # ds"
    by (cases "rsplit sep s"; cases "tl (rsplit sep s)"; cases "tl (tl (rsplit sep s))") auto
  then show ?thesis
    using length_rsplit [of sep s] by (simp add: unpack2_def)
qed

text \<open>
  Claim C3 says that every decomposition of a full name splits at the last separator
  only. On the nested name \<open>mlp/linear/w\<close>, which the specification splits into
  \<open>mlp/linear\<close> and \<open>w\<close>, the learning-rate recording, the base-shape lookup and the
  interceptor built on them raise the unpacking error instead, and the forward-pass
  getter reads the readout registry at the first piece \<open>mlp\<close>, not at the parent
  \<open>mlp/linear\<close>: it divides by the multiplier of another scope.
\<close>

theorem C3_nested_name_is_not_split_at_last_separator:
  "spec_split_last CHR ''/'' ''mlp/linear/w'' = Some (''mlp/linear'', ''w'') \<and>
   set_lrs demo_nested ''mlp/linear/w'' 1 1 = Inl (UnpackError 3) \<and>
   get_inf_ratios demo_nested ''mlp/linear/w'' [1024, 1024] = Inl (UnpackError 3) \<and>
   mup_creator (\<lambda>s d i. i) [1024, 1024] () (Init ())
       \<lparr>ctx_full_name = ''mlp/linear/w'', ctx_is_readout = False\<rparr> (Some demo_nested) =
     (Inl (UnpackError 3), Some demo_nested) \<and>
   hd (rsplit CHR ''/'' ''mlp/linear/w'') = ''mlp'' \<and>
   map_of (readout_mults demo_nested) ''mlp/linear'' = None \<and>
   mup_getter (\<lambda>v. v) [16, 24]
       \<lparr>ctx_full_name = ''mlp/linear/w'', ctx_is_readout = True\<rparr> demo_nested = [2, 3]"
  by (simp add: set_lrs_def get_inf_ratios_def mup_creator_def mup_getter_def unpack2_def
      demo_nested_def)

subsection \<open>The forward-pass interceptor by the key it computes\<close>

lemma set_lrs_readout_mults: "set_lrs m full_name s a = Inr m' \<Longrightarrow> readout_mults m' = readout_mults m"
  by (auto simp: set_lrs_def split: sum.splits)

lemma record_lrs_readout_mults:
  "record_lrs m full_name n rs w = Inr m' \<Longrightarrow> readout_mults m' = readout_mults m"
  by (auto simp: record_lrs_def split: sum.splits if_splits dest: set_lrs_readout_mults)

lemma set_update_subset: "set (AList.update k v al) \<subseteq> insert (k, v) (set al)"
  by (induction al) auto

lemma mup_creator_readout_nonzero:
  assumes "mup_creator next_creator shape dtype init ctx (Some m) = (r, Some m')"
    and "readout_nonzero m"
  shows "readout_nonzero m'"
  using assms
  by (auto simp: mup_creator_def readout_nonzero_def truediv_def image_iff
      split: sum.splits if_splits prod.splits
      dest!: record_lrs_readout_mults subsetD [OF set_update_subset])

lemma mup_init_readout_nonzero: "readout_nonzero mup_init"
  by (simp add: readout_nonzero_def mup_init_def)

text \<open>
  What the getter computes. Let \<open>scope\<close> be the registry key it derives from the full
  name, the first piece of the split, which is the parent scope when the name has one
  separator; let the recorded readout multipliers be non-zero. A parameter of a module
  that is not a readout is returned as read; so is one of a readout for which the
  registry has no entry at \<open>scope\<close>; one of a readout for which it has the multiplier
  \<open>m\<close> there is returned divided by \<open>m\<close>.
\<close>

theorem getter_by_registry_key:
  assumes scope: "scope = hd (rsplit CHR ''/'' (ctx_full_name ctx))"
    and nz: "readout_nonzero mup_ctx"
  shows "(\<not> ctx_is_readout ctx \<longrightarrow> mup_getter next_getter v ctx mup_ctx = next_getter v) \<and>
         (ctx_is_readout ctx \<and> map_of (readout_mults mup_ctx) scope = None \<longrightarrow>
            mup_getter next_getter v ctx mup_ctx = next_getter v) \<and>
         (\<forall>m. ctx_is_readout ctx \<and> map_of (readout_mults mup_ctx) scope = Some m \<longrightarrow>
            mup_getter next_getter v ctx mup_ctx = map (\<lambda>x. x / m) (next_getter v)) \<and>
         (\<forall>parent name. unpack2 (rsplit CHR ''/'' (ctx_full_name ctx)) = Inr (parent, name) \<longrightarrow>
            scope = parent)"
proof -
  have "m \<noteq> 0" if "map_of (readout_mults mup_ctx) scope = Some m" for m
    using that nz by (force simp: readout_nonzero_def dest: map_of_SomeD)
  then show ?thesis
    by (auto simp: mup_getter_def scope unpack2_Inr_iff)
qed

theorem getter_by_registry_key_example:
  "mup_getter (\<lambda>v. v) [16, 24] \<lparr>ctx_full_name = ''mlp/w'', ctx_is_readout = False\<rparr> demo_nested = [16, 24] \<and>
   mup_getter (\<lambda>v. v) [16, 24] \<lparr>ctx_full_name = ''out/w'', ctx_is_readout = True\<rparr> demo_nested = [16, 24] \<and>
   mup_getter (\<lambda>v. v) [16, 24] \<lparr>ctx_full_name = ''mlp/w'', ctx_is_readout = True\<rparr> demo_nested = [2, 3]"
proof -
  have nz: "readout_nonzero demo_nested"
    by (simp add: readout_nonzero_def demo_nested_def)
  have s1: "''mlp'' = hd (rsplit CHR ''/'' (ctx_full_name \<lparr>ctx_full_name = ''mlp/w'', ctx_is_readout = False\<rparr>))"
    and s2: "''out'' = hd (rsplit CHR ''/'' (ctx_full_name \<lparr>ctx_full_name = ''out/w'', ctx_is_readout = True\<rparr>))"
    and s3: "''mlp'' = hd (rsplit CHR ''/'' (ctx_full_name \<lparr>ctx_full_name = ''mlp/w'', ctx_is_readout = True\<rparr>))"
    by simp_all
  have r: "map_of (readout_mults demo_nested) ''out'' = None"
    "map_of (readout_mults demo_nested) ''mlp'' = Some 8"
    by (simp_all add: demo_nested_def)
  show ?thesis
    using getter_by_registry_key [OF s1 nz, of "\<lambda>v. v" "[16, 24]"]
      getter_by_registry_key [OF s2 nz, of "\<lambda>v. v" "[16, 24]"]
      getter_by_registry_key [OF s3 nz, of "\<lambda>v. v" "[16, 24]"]
    by (simp add: r)
qed

subsection \<open>Claim about the two learning-rate registries\<close>

lemma setitem2_Nil: "setitem2 [] parent name v = [(parent, [(name, v)])]"
  by (simp add: setitem2_def)

lemma setitem2_Cons:
  "setitem2 ((q, inner) # d) parent name v =
     (if q = parent then (parent, AList.update name v inner) # d
      else (q, inner) # setitem2 d parent name v)"
  by (simp add: setitem2_def)

lemma setitem2_nonempty: "setitem2 d parent name v \<noteq> []"
  by (cases d) (auto simp: setitem2_Nil setitem2_Cons split: if_splits)

lemma key_structure_setitem2:
  "key_structure d1 = key_structure d2 \<Longrightarrow>
   key_structure (setitem2 d1 parent name v1) = key_structure (setitem2 d2 parent name v2)"
proof (induction d1 arbitrary: d2)
  case Nil
  then show ?case by (simp add: key_structure_def setitem2_Nil)
next
  case (Cons x d1)
  obtain q i1 where x: "x = (q, i1)" by (cases x)
  from Cons.prems x obtain i2 d2' where d2: "d2 = (q, i2) # d2'"
    and i: "map fst i1 = map fst i2" and r: "key_structure d1 = key_structure d2'"
    by (cases d2) (auto simp: key_structure_def)
  from i have "map fst (AList.update name v1 i1) = map fst (AList.update name v2 i2)"
    by (simp add: update_keys)
  with Cons.IH [OF r] r i show ?case
    by (simp add: x d2 setitem2_Cons key_structure_def)
qed

lemma set_lrs_key_structure:
  assumes "key_structure (sgd_lrs m) = key_structure (adam_lrs m)"
    and "set_lrs m full_name sgd_lr adam_lr = Inr m'"
  shows "key_structure (sgd_lrs m') = key_structure (adam_lrs m')"
  using assms
  by (auto simp: set_lrs_def split: sum.splits intro: key_structure_setitem2)

lemma set_lrs_all_key_structure:
  "key_structure (sgd_lrs m) = key_structure (adam_lrs m) \<Longrightarrow>
   key_structure (sgd_lrs (set_lrs_all m calls)) = key_structure (adam_lrs (set_lrs_all m calls))"
proof (induction calls arbitrary: m)
  case Nil
  then show ?case by simp
next
  case (Cons c calls)
  obtain full_name sgd_lr adam_lr where c: "c = (full_name, sgd_lr, adam_lr)"
    by (cases c)
  show ?case
  proof (cases "set_lrs m full_name sgd_lr adam_lr")
    case (Inl e)
    with Cons c show ?thesis by simp
  next
    case (Inr m')
    with Cons.prems have "key_structure (sgd_lrs m') = key_structure (adam_lrs m')"
      by (rule set_lrs_key_structure)
    with Cons.IH Inr c show ?thesis by simp
  qed
qed

lemma key_structure_Nil_iff: "key_structure d = [] \<longleftrightarrow> d = []"
  by (simp add: key_structure_def)

lemma key_structure_lookup2:
  "key_structure d1 = key_structure d2 \<Longrightarrow>
   (lookup2 d1 parent name = None) = (lookup2 d2 parent name = None)"
proof (induction d1 arbitrary: d2)
  case Nil
  then show ?case by (simp add: key_structure_def lookup2_def)
next
  case (Cons x d1)
  obtain q i1 where x: "x = (q, i1)" by (cases x)
  from Cons.prems x obtain i2 d2' where d2: "d2 = (q, i2) # d2'"
    and i: "map fst i1 = map fst i2" and r: "key_structure d1 = key_structure d2'"
    by (cases d2) (auto simp: key_structure_def)
  from i have "(map_of i1 name = None) = (map_of i2 name = None)"
    by (metis map_of_eq_None_iff set_map)
  with Cons.IH [OF r] show ?case
    by (simp add: x d2 lookup2_def)
qed

text \<open>
  Claim C10. After any sequence of learning-rate recordings on a fresh session, the SGD
  registry and the Adam registry have the same key structure: the same scopes in the
  same order and, under each scope, the same names. Hence the Adam registry is empty
  exactly when the SGD registry is, and an entry is present in one exactly when it is
  present in the other.
\<close>

theorem C10_registries_share_their_keys:
  "key_structure (sgd_lrs (set_lrs_all mup_init calls)) =
     key_structure (adam_lrs (set_lrs_all mup_init calls)) \<and>
   (adam_lrs (set_lrs_all mup_init calls) = [] \<longleftrightarrow> sgd_lrs (set_lrs_all mup_init calls) = []) \<and>
   (\<forall>parent name.
      (lookup2 (adam_lrs (set_lrs_all mup_init calls)) parent name = None) =
      (lookup2 (sgd_lrs (set_lrs_all mup_init calls)) parent name = None))"
proof -
  have k: "key_structure (sgd_lrs (set_lrs_all mup_init calls)) =
     key_structure (adam_lrs (set_lrs_all mup_init calls))"
    by (rule set_lrs_all_key_structure) (simp add: mup_init_def)
  from k have "adam_lrs (set_lrs_all mup_init calls) = [] \<longleftrightarrow> sgd_lrs (set_lrs_all mup_init calls) = []"
    by (metis key_structure_Nil_iff)
  with k key_structure_lookup2 [OF k] show ?thesis by simp
qed


theorem C10_witness:
  "key_structure (sgd_lrs (set_lrs_all mup_init
      [(''lin/w'', 1 / 2, 1 / 8), (''mlp/linear/w'', 1, 1), (''lin/b'', 1, 1), (''out/w'', 8, 1)])) =
     [(''lin'', [''w'', ''b'']), (''out'', [''w''])] \<and>
   key_structure (adam_lrs (set_lrs_all mup_init
      [(''lin/w'', 1 / 2, 1 / 8), (''mlp/linear/w'', 1, 1), (''lin/b'', 1, 1), (''out/w'', 8, 1)])) =
     [(''lin'', [''w'', ''b'']), (''out'', [''w''])]"
proof -
  have "key_structure (sgd_lrs (set_lrs_all mup_init
      [(''lin/w'', 1 / 2, 1 / 8), (''mlp/linear/w'', 1, 1), (''lin/b'', 1, 1), (''out/w'', 8, 1)])) =
     [(''lin'', [''w'', ''b'']), (''out'', [''w''])]"
    by (simp add: set_lrs_def unpack2_def mup_init_def setitem2_def key_structure_def)
  then show ?thesis
    using C10_registries_share_their_keys
      [of "[(''lin/w'', 1 / 2, 1 / 8), (''mlp/linear/w'', 1, 1), (''lin/b'', 1, 1), (''out/w'', 8, 1)]"]
    by simp
qed

subsection \<open>Claims about the session context\<close>

lemma init_context_reuse:
  "adam_lrs (objects w self) \<noteq> [] \<Longrightarrow>
   init_context self bs body w =
     (Inl (ValueError ''Attempted to re-use mup context''), entered self bs w)"
  by (simp add: init_context_def entered_def set_base_shapes_def Let_def)

lemma init_context_fresh:
  "adam_lrs (objects w self) = [] \<Longrightarrow>
   init_context self bs body w =
     (fst (body (entered self bs w)),
      set_base_shapes self None ((snd (body (entered self bs w)))\<lparr>mup_context := mup_context w\<rparr>))"
  by (simp add: init_context_def entered_def set_base_shapes_def Let_def split: prod.splits)

lemma set_lrs_nonempty:
  "set_lrs m full_name sgd_lr adam_lr = Inr m' \<Longrightarrow> adam_lrs m' \<noteq> [] \<and> sgd_lrs m' \<noteq> []"
  by (auto simp: set_lrs_def setitem2_nonempty split: sum.splits)

text \<open>
  Claim C4, as the code has it. When the session's registry is empty at entry, so
  that the body runs, then whether the body returns or raises, the context passes its
  outcome on, puts the active-session marker back to the value it had before entry
  (so it is cleared when no session was active then), resets the stored base shapes to
  \<^verbatim>\<open>None\<close>, and leaves the registries of every session as the body left them.
\<close>

theorem C4_exit_restores_marker_and_clears_base_shapes:
  assumes fresh: "adam_lrs (objects w self) = []"
    and body: "body (entered self bs w) = (r, w3)"
  shows "\<exists>w'. init_context self bs body w = (r, w') \<and>
           mup_context w' = mup_context w \<and>
           (mup_context w = None \<longrightarrow> mup_context w' = None) \<and>
           base_shapes (objects w' self) = None \<and>
           (\<forall>s. adam_lrs (objects w' s) = adam_lrs (objects w3 s) \<and>
                sgd_lrs (objects w' s) = sgd_lrs (objects w3 s) \<and>
                readout_mults (objects w' s) = readout_mults (objects w3 s))"
  using init_context_fresh [OF fresh, of bs body] body
  by (simp add: set_base_shapes_def)

theorem C4_witness:
  "(\<exists>w'. init_context 0 demo_bs demo_body_return demo_idle = (Inr (), w') \<and>
          mup_context w' = None \<and> base_shapes (objects w' 0) = None \<and>
          adam_lrs (objects w' 0) = []) \<and>
   (\<exists>w'. init_context 0 demo_bs demo_body_raise demo_idle = (Inl (KeyError ''w''), w') \<and>
          mup_context w' = None \<and> base_shapes (objects w' 0) = None \<and>
          adam_lrs (objects w' 0) = [(''lin'', [(''w'', 1)])])"
proof -
  have fresh: "adam_lrs (objects demo_idle 0) = []"
    by (simp add: demo_idle_def mup_init_def)
  have b1: "demo_body_return (entered 0 demo_bs demo_idle) = (Inr (), entered 0 demo_bs demo_idle)"
    by (simp add: demo_body_return_def)
  have b2: "demo_body_raise (entered 0 demo_bs demo_idle) =
      (Inl (KeyError ''w''),
       (entered 0 demo_bs demo_idle)\<lparr>objects := (objects (entered 0 demo_bs demo_idle))(0 := demo_used)\<rparr>)"
    by (simp add: demo_body_raise_def)
  have e: "mup_context demo_idle = None" "adam_lrs (objects (entered 0 demo_bs demo_idle) 0) = []"
    "adam_lrs demo_used = [(''lin'', [(''w'', 1)])]"
    by (simp_all add: demo_idle_def entered_def set_base_shapes_def mup_init_def demo_used_def)
  from C4_exit_restores_marker_and_clears_base_shapes
      [where body = demo_body_return, OF fresh b1]
  obtain w1 where w1: "init_context 0 demo_bs demo_body_return demo_idle = (Inr (), w1)"
    "mup_context w1 = mup_context demo_idle" "base_shapes (objects w1 0) = None"
    "adam_lrs (objects w1 0) = adam_lrs (objects (entered 0 demo_bs demo_idle) 0)"
    by blast
  from C4_exit_restores_marker_and_clears_base_shapes
      [where body = demo_body_raise, OF fresh b2]
  obtain w2 where w2: "init_context 0 demo_bs demo_body_raise demo_idle = (Inl (KeyError ''w''), w2)"
    "mup_context w2 = mup_context demo_idle" "base_shapes (objects w2 0) = None"
    "adam_lrs (objects w2 0) =
       adam_lrs (objects ((entered 0 demo_bs demo_idle)
         \<lparr>objects := (objects (entered 0 demo_bs demo_idle))(0 := demo_used)\<rparr>) 0)"
    by blast
  from w1 w2 show ?thesis by (simp add: e)
qed

theorem C4_counterexample:
  "fst (init_context 0 demo_bs demo_body_return demo_reused) =
     Inl (ValueError ''Attempted to re-use mup context'') \<and>
   mup_context (snd (init_context 0 demo_bs demo_body_return demo_reused)) = Some 0 \<and>
   base_shapes (objects (snd (init_context 0 demo_bs demo_body_return demo_reused)) 0) =
     Some demo_bs \<and>
   fst (init_context 0 demo_bs demo_body_return demo_outer_active) = Inr () \<and>
   mup_context (snd (init_context 0 demo_bs demo_body_return demo_outer_active)) = Some 1"
  by (simp add: init_context_def entered_def set_base_shapes_def demo_used_def mup_init_def
      demo_reused_def demo_outer_active_def demo_body_return_def Let_def)


text \<open>
  Claim C8. Entering with a non-empty Adam registry, in particular with a session on
  which a learning rate has just been recorded, raises the re-use error; entering with
  an empty one runs the body in the process where the session is the active one and
  holds the base shapes.
\<close>

theorem C8_session_reuse:
  "(adam_lrs (objects w self) \<noteq> [] \<longrightarrow>
      fst (init_context self bs body w) = Inl (ValueError ''Attempted to re-use mup context'')) \<and>
   (adam_lrs (objects w self) = [] \<longrightarrow>
      fst (init_context self bs body w) = fst (body (entered self bs w)) \<and>
      mup_context (entered self bs w) = Some self \<and>
      base_shapes (objects (entered self bs w) self) = Some bs) \<and>
   (\<forall>m full_name sgd_lr adam_lr. set_lrs m full_name sgd_lr adam_lr = Inr (objects w self) \<longrightarrow>
      fst (init_context self bs body w) = Inl (ValueError ''Attempted to re-use mup context''))"
  using init_context_reuse [of w self bs body] init_context_fresh [of w self bs body]
  by (auto simp: entered_def set_base_shapes_def dest: set_lrs_nonempty)


theorem C8_witness:
  "fst (init_context 0 demo_bs demo_body_return demo_reused) =
     Inl (ValueError ''Attempted to re-use mup context'') \<and>
   fst (init_context 0 demo_bs demo_body_return demo_idle) = Inr ()"
proof -
  have a: "adam_lrs (objects demo_reused 0) \<noteq> []" "adam_lrs (objects demo_idle 0) = []"
    by (simp_all add: demo_reused_def demo_used_def demo_idle_def mup_init_def)
  show ?thesis
    using C8_session_reuse [of demo_reused 0 demo_bs demo_body_return]
      C8_session_reuse [of demo_idle 0 demo_bs demo_body_return]
    by (simp add: a demo_body_return_def)
qed

subsection \<open>Claim about the optimizer wrapper\<close>

lemma same_keys_length: "same_keys d1 d2 \<Longrightarrow> length d1 = length d2"
  unfolding same_keys_def by (metis distinct_card length_map)

lemma zip_dict_returns:
  assumes "\<And>k a. (k, a) \<in> set d1 \<Longrightarrow> \<exists>b c. map_of d2 k = Some b \<and> f a b = Inr c"
  shows "\<exists>r. zip_dict f d1 d2 = Inr r"
  using assms
proof (induction d1)
  case Nil
  then show ?case by simp
next
  case (Cons x d1)
  obtain k a where x: "x = (k, a)" by (cases x)
  from Cons.prems [of k a] x obtain b c where "map_of d2 k = Some b" "f a b = Inr c" by auto
  moreover from Cons.IH Cons.prems obtain r where "zip_dict f d1 d2 = Inr r" by auto
  ultimately show ?case by (simp add: x)
qed

lemma zip_dict_lookup:
  "zip_dict f d1 d2 = Inr r \<Longrightarrow> map_of d1 k = Some a \<Longrightarrow>
   \<exists>b c. map_of d2 k = Some b \<and> f a b = Inr c \<and> map_of r k = Some c"
  by (induction d1 arbitrary: r) (auto split: option.splits sum.splits if_splits)

lemma zip_dict_keys: "zip_dict f d1 d2 = Inr r \<Longrightarrow> map fst r = map fst d1"
  by (induction d1 arbitrary: r) (auto split: option.splits sum.splits)

lemma dict_map2_total_returns:
  assumes "same_keys d1 d2"
  shows "\<exists>r. dict_map2 (\<lambda>a b. Inr (g a b)) d1 d2 = Inr r"
proof -
  have "\<exists>b c. map_of d2 k = Some b \<and> (Inr (g a b) :: error + 'd) = Inr c" if "(k, a) \<in> set d1" for k a
  proof -
    from that assms have "k \<in> fst ` set d2" by (force simp: same_keys_def)
    then obtain b where "map_of d2 k = Some b" by (metis domD dom_map_of_conv_image_fst)
    then show ?thesis by simp
  qed
  then have "\<exists>r. zip_dict (\<lambda>a b. Inr (g a b)) d1 d2 = Inr r"
    by (rule zip_dict_returns)
  with same_keys_length [OF assms] show ?thesis by (simp add: dict_map2_def)
qed

lemma tree_map_returns:
  assumes "same_structure t1 t2"
  shows "\<exists>t. tree_map g t1 t2 = Inr t"
proof -
  have "\<exists>b c. map_of t2 k = Some b \<and> dict_map2 (\<lambda>a b. Inr (g a b)) a b = Inr c"
    if "(k, a) \<in> set t1" for k a
  proof -
    from that assms obtain b where "map_of t2 k = Some b" "same_keys a b"
      by (auto simp: same_structure_def list_all_iff split: option.splits)
    with dict_map2_total_returns [of a b g] show ?thesis by auto
  qed
  then have "\<exists>r. zip_dict (dict_map2 (\<lambda>a b. Inr (g a b))) t1 t2 = Inr r"
    by (rule zip_dict_returns)
  moreover from assms have "length t1 = length t2"
    by (simp add: same_structure_def same_keys_length)
  ultimately show ?thesis by (simp add: tree_map_def dict_map2_def)
qed

lemma dict_map2_lookup:
  "dict_map2 f d1 d2 = Inr r \<Longrightarrow> map_of d1 k = Some a \<Longrightarrow>
   \<exists>b c. map_of d2 k = Some b \<and> f a b = Inr c \<and> map_of r k = Some c"
  by (auto simp: dict_map2_def split: if_splits dest: zip_dict_lookup)

lemma dict_map2_keys: "dict_map2 f d1 d2 = Inr r \<Longrightarrow> map fst r = map fst d1"
  by (auto simp: dict_map2_def split: if_splits dest: zip_dict_keys)

lemma tree_map_lookup:
  assumes "tree_map g t1 t2 = Inr t" and "lookup2 t1 parent name = Some a"
  shows "\<exists>b. lookup2 t2 parent name = Some b \<and> lookup2 t parent name = Some (g a b)"
proof -
  from assms(2) obtain i1 where i1: "map_of t1 parent = Some i1" "map_of i1 name = Some a"
    by (auto simp: lookup2_def split: option.splits)
  from dict_map2_lookup [OF assms(1) [unfolded tree_map_def] i1(1)]
  obtain i2 i where i: "map_of t2 parent = Some i2"
    "dict_map2 (\<lambda>a b. Inr (g a b)) i1 i2 = Inr i" "map_of t parent = Some i"
    by blast
  from dict_map2_lookup [OF i(2) i1(2)]
  obtain b where "map_of i2 name = Some b" "map_of i name = Some (g a b)"
    by auto
  with i show ?thesis by (simp add: lookup2_def)
qed

lemma tree_map_absent:
  assumes "tree_map g t1 t2 = Inr t" and "lookup2 t1 parent name = None"
  shows "lookup2 t parent name = None"
proof (cases "map_of t1 parent")
  case None
  from assms(1) have "map fst t = map fst t1"
    by (auto simp: tree_map_def dest: dict_map2_keys)
  with None have "map_of t parent = None"
    by (metis map_of_eq_None_iff set_map)
  then show ?thesis by (simp add: lookup2_def)
next
  case (Some i1)
  from dict_map2_lookup [OF assms(1) [unfolded tree_map_def] Some]
  obtain i2 i where i: "dict_map2 (\<lambda>a b. Inr (g a b)) i1 i2 = Inr i" "map_of t parent = Some i"
    by blast
  from i(1) have "map fst i = map fst i1" by (rule dict_map2_keys)
  moreover from assms(2) Some have "map_of i1 name = None" by (simp add: lookup2_def)
  ultimately have "map_of i name = None" by (metis map_of_eq_None_iff set_map)
  with i(2) show ?thesis by (simp add: lookup2_def)
qed

lemma chain_update:
  "gt_update optimizer updates s1 params = Inr (updates1, s1') \<Longrightarrow>
   gt_update stage updates1 s2 params = Inr (updates2, s2') \<Longrightarrow>
   gt_update (chain optimizer stage) updates (s1, s2) params = Inr (updates2, (s1', s2'))"
  by (simp add: chain_def)

text \<open>
  Claim C9. With an empty Adam registry the wrapper raises the error of wrapping before
  initialisation. Otherwise it returns the chain of the given optimizer and a final
  stage; on an update tree with the structure of the selected registry (the Adam
  multipliers when the flag is set, the SGD multipliers otherwise) that stage returns
  the tree in which every leaf is multiplied, entry by entry, by the multiplier under
  the same scope and name, and it returns the optimizer state as it received it.
\<close>

theorem C9_wrap_optimizer:
  "(adam_lrs self = [] \<longrightarrow>
      wrap_optimizer self optimizer adam =
        Inl (ValueError ''Attempted to wrap optimizer before initializing network'')) \<and>
   (adam_lrs self \<noteq> [] \<longrightarrow>
      (\<exists>wrapped. wrap_optimizer self optimizer adam = Inr wrapped \<and>
         (\<forall>live. wrapped live =
            chain optimizer \<lparr>gt_init = init_fn, gt_update = update_fn live adam\<rparr>))) \<and>
   (\<forall>lrs. lrs = (if adam then adam_lrs live else sgd_lrs live) \<and> same_structure updates lrs \<longrightarrow>
      (\<exists>scaled. update_fn live adam updates state params = Inr (scaled, state) \<and>
         (\<forall>parent name.
            (lookup2 updates parent name = None \<longrightarrow> lookup2 scaled parent name = None) \<and>
            (\<forall>u. lookup2 updates parent name = Some u \<longrightarrow>
               (\<exists>lr. lookup2 lrs parent name = Some lr \<and>
                  lookup2 scaled parent name = Some (map (\<lambda>x. x * lr) u))))))"
proof -
  have "\<exists>scaled. update_fn live adam updates state params = Inr (scaled, state) \<and>
         (\<forall>parent name.
            (lookup2 updates parent name = None \<longrightarrow> lookup2 scaled parent name = None) \<and>
            (\<forall>u. lookup2 updates parent name = Some u \<longrightarrow>
               (\<exists>lr. lookup2 lrs parent name = Some lr \<and>
                  lookup2 scaled parent name = Some (map (\<lambda>x. x * lr) u))))"
    if lrs: "lrs = (if adam then adam_lrs live else sgd_lrs live)" and s: "same_structure updates lrs"
    for lrs
  proof -
    from tree_map_returns [OF s] obtain scaled
      where t: "tree_map (\<lambda>update scale. map (\<lambda>x. x * scale) update) updates lrs = Inr scaled"
      by blast
    then have "update_fn live adam updates state params = Inr (scaled, state)"
      using lrs by (simp add: update_fn_def)
    with tree_map_lookup [OF t] tree_map_absent [OF t] show ?thesis by blast
  qed
  then show ?thesis
    by (simp add: wrap_optimizer_def)
qed

theorem C9_witness:
  "wrap_optimizer mup_init demo_optimizer False =
     Inl (ValueError ''Attempted to wrap optimizer before initializing network'') \<and>
   (\<exists>wrapped. wrap_optimizer demo_nested demo_optimizer False = Inr wrapped \<and>
      wrapped demo_nested =
        chain demo_optimizer \<lparr>gt_init = init_fn, gt_update = update_fn demo_nested False\<rparr>) \<and>
   (\<exists>scaled. update_fn demo_nested False demo_updates EmptyState (None :: unit option) =
        Inr (scaled, EmptyState) \<and>
      lookup2 scaled ''mlp'' ''w'' = Some [8, 16]) \<and>
   (\<exists>scaled. update_fn demo_nested True demo_updates EmptyState (None :: unit option) =
        Inr (scaled, EmptyState) \<and>
      lookup2 scaled ''mlp'' ''w'' = Some [1, 2])"
proof -
  have e: "adam_lrs mup_init = []" "adam_lrs demo_nested \<noteq> []"
    by (simp_all add: mup_init_def demo_nested_def)
  have s: "same_structure demo_updates (sgd_lrs demo_nested)"
    "same_structure demo_updates (adam_lrs demo_nested)"
    by (simp_all add: same_structure_def same_keys_def demo_updates_def demo_nested_def)
  have l: "lookup2 demo_updates ''mlp'' ''w'' = Some [1, 2]"
    "lookup2 (sgd_lrs demo_nested) ''mlp'' ''w'' = Some 8"
    "lookup2 (adam_lrs demo_nested) ''mlp'' ''w'' = Some 1"
    by (simp_all add: lookup2_def demo_updates_def demo_nested_def)
  note c1 = C9_wrap_optimizer [of mup_init demo_optimizer False demo_nested demo_updates EmptyState "None :: unit option"]
  note c2 = C9_wrap_optimizer [of demo_nested demo_optimizer False demo_nested demo_updates EmptyState "None :: unit option"]
  note c3 = C9_wrap_optimizer [of demo_nested demo_optimizer True demo_nested demo_updates EmptyState "None :: unit option"]
  from c1 e have a: "wrap_optimizer mup_init demo_optimizer False =
     Inl (ValueError ''Attempted to wrap optimizer before initializing network'')"
    by simp
  from c2 e have b: "\<exists>wrapped. wrap_optimizer demo_nested demo_optimizer False = Inr wrapped \<and>
      wrapped demo_nested =
        chain demo_optimizer \<lparr>gt_init = init_fn, gt_update = update_fn demo_nested False\<rparr>"
    by auto
  from c2 s(1) obtain scaled where "update_fn demo_nested False demo_updates EmptyState (None :: unit option) =
        Inr (scaled, EmptyState)"
    "\<forall>u. lookup2 demo_updates ''mlp'' ''w'' = Some u \<longrightarrow>
       (\<exists>lr. lookup2 (sgd_lrs demo_nested) ''mlp'' ''w'' = Some lr \<and>
             lookup2 scaled ''mlp'' ''w'' = Some (map (\<lambda>x. x * lr) u))"
    by auto
  with l have c: "\<exists>scaled. update_fn demo_nested False demo_updates EmptyState (None :: unit option) =
        Inr (scaled, EmptyState) \<and> lookup2 scaled ''mlp'' ''w'' = Some [8, 16]"
    by auto
  from c3 s(2) obtain scaled' where "update_fn demo_nested True demo_updates EmptyState (None :: unit option) =
        Inr (scaled', EmptyState)"
    "\<forall>u. lookup2 demo_updates ''mlp'' ''w'' = Some u \<longrightarrow>
       (\<exists>lr. lookup2 (adam_lrs demo_nested) ''mlp'' ''w'' = Some lr \<and>
             lookup2 scaled' ''mlp'' ''w'' = Some (map (\<lambda>x. x * lr) u))"
    by auto
  with l have d: "\<exists>scaled. update_fn demo_nested True demo_updates EmptyState (None :: unit option) =
        Inr (scaled, EmptyState) \<and> lookup2 scaled ''mlp'' ''w'' = Some [1, 2]"
    by auto
  from a b c d show ?thesis by blast
qed

subsection \<open>Claims about the interceptors on every parameter\<close>

text \<open>
  Claim C1 says that for every parameter whose base and requested shapes differ in \<open>k\<close>
  dimensions the interceptor records the multipliers of the rule. The parameter \<open>w\<close> of
  the nested scope \<open>mlp/linear\<close> has the base shape (128, 128); requested with shape
  (1024, 512) it has two infinite dimensions, and the rule gives sgd_lr = 1/2 and
  adam_lr = 1/8. The interceptor raises the unpacking error instead and leaves the
  session as it was: neither registry has an entry for the parameter.
\<close>

theorem C1_nested_name_records_no_learning_rate:
  "spec_split_last CHR ''/'' ''mlp/linear/w'' = Some (''mlp/linear'', ''w'') \<and>
   base_shape_of demo_nested ''mlp/linear'' ''w'' = Inr [128, 128] \<and>
   spec_differing [128, 128] [1024, 512] = [0, 1] \<and>
   spec_lrs 2 (spec_ratios [128, 128] [1024, 512]) = (1 / 2, 1 / 8) \<and>
   mup_creator (\<lambda>s d i. i) [1024, 512] () (Init ())
       \<lparr>ctx_full_name = ''mlp/linear/w'', ctx_is_readout = False\<rparr> (Some demo_nested) =
     (Inl (UnpackError 3), Some demo_nested) \<and>
   lookup2 (sgd_lrs demo_nested) ''mlp/linear'' ''w'' = None \<and>
   lookup2 (adam_lrs demo_nested) ''mlp/linear'' ''w'' = None"
  by (simp add: base_shape_of_def spec_differing_def spec_ratios_def spec_lrs_def
      spec_width_mult_def upt_rec mup_creator_def get_inf_ratios_def unpack2_def lookup2_def
      demo_nested_def)

text \<open>
  Claim C6 says that for every parameter of a readout with exactly one infinite
  dimension \<open>width_mult\<close> is recorded under the parent scope and the rescaled
  initialiser is handed on. The parameter \<open>w\<close> of the nested readout \<open>mlp/linear\<close>,
  requested with shape (1024, 128) against the base shape (128, 128), has one infinite
  dimension of ratio 8. The interceptor raises the unpacking error instead: nothing
  is handed to the next creation step, and the readout registry has no entry for the
  parent scope.
\<close>

theorem C6_nested_readout_records_no_multiplier:
  "spec_split_last CHR ''/'' ''mlp/linear/w'' = Some (''mlp/linear'', ''w'') \<and>
   base_shape_of demo_nested ''mlp/linear'' ''w'' = Inr [128, 128] \<and>
   spec_differing [128, 128] [1024, 128] = [0] \<and>
   spec_ratios [128, 128] [1024, 128] = [8] \<and>
   mup_creator (\<lambda>s d i. i) [1024, 128] () (Init ())
       \<lparr>ctx_full_name = ''mlp/linear/w'', ctx_is_readout = True\<rparr> (Some demo_nested) =
     (Inl (UnpackError 3), Some demo_nested) \<and>
   map_of (readout_mults demo_nested) ''mlp/linear'' = None"
  by (simp add: base_shape_of_def spec_differing_def spec_ratios_def upt_rec mup_creator_def
      get_inf_ratios_def unpack2_def demo_nested_def)

text \<open>
  Claim C5 says that a parameter of a readout whose scope has no entry in the readout
  registry is returned as read. The parameter \<open>w\<close> of the nested readout \<open>mlp/linear\<close>
  has the parent scope \<open>mlp/linear\<close>, for which the session holds no multiplier; its
  recorded multipliers are non-zero. The getter reads the registry at \<open>mlp\<close>, finds
  the multiplier 8 of that other scope, and returns the value (16, 24) as (2, 3).
\<close>

theorem C5_nested_readout_divided_by_outer_multiplier:
  "ctx_is_readout \<lparr>ctx_full_name = ''mlp/linear/w'', ctx_is_readout = True\<rparr> \<and>
   spec_split_last CHR ''/'' ''mlp/linear/w'' = Some (''mlp/linear'', ''w'') \<and>
   map_of (readout_mults demo_nested) ''mlp/linear'' = None \<and>
   readout_nonzero demo_nested \<and>
   map_of (readout_mults demo_nested) ''mlp'' = Some 8 \<and>
   mup_getter (\<lambda>v. v) [16, 24]
       \<lparr>ctx_full_name = ''mlp/linear/w'', ctx_is_readout = True\<rparr> demo_nested = [2, 3]"
  by (simp add: mup_getter_def readout_nonzero_def demo_nested_def)

end
